theory Spec2Isabelle
  imports Main "HOL-Library.Word"
begin

section \<open>Machine arithmetic and storage utilities\<close>

text \<open>
  Sizes and offsets of the storage layer are \<open>uint32_t\<close>. They are modelled as natural
  numbers, and every place where the source stores or passes a \<open>uint32_t\<close> truncates
  with \<open>u32\<close>, so a wrap-around of the source is a wrap-around of the model.
\<close>

definition u32 :: "nat \<Rightarrow> nat" where
  "u32 x = x mod 2 ^ 32"

definition u16 :: "nat \<Rightarrow> nat" where
  "u16 x = x mod 2 ^ 16"

text \<open>
  Modelled from the spec: \<open>StorageUtil::PadUpToSize(word_size, offset)\<close> is declared in
  \<open>storage/storage_util.h\<close>, which is not among the sources. The spec calls it
  "pad to 4-byte align", "pad to 8-byte align", "pad to \<open>attr_size\<close>": the least multiple of
  \<open>word_size\<close> that is not below \<open>offset\<close>. A \<open>word_size\<close> of zero is a division by zero
  in the source; every theorem below that pads assumes positive attribute sizes.
\<close>

definition PadUpToSize :: "nat \<Rightarrow> nat \<Rightarrow> nat" where
  "PadUpToSize word_size offset =
     (if offset mod word_size = 0 then offset else offset + word_size - offset mod word_size)"

text \<open>
  Modelled from the spec: \<open>StorageUtil::AlignedPtr(size, ptr)\<close>, of the same absent header,
  is the same rounding on an address.
\<close>

definition AlignedPtr :: "nat \<Rightarrow> nat \<Rightarrow> nat" where
  "AlignedPtr word_size ptr = PadUpToSize word_size ptr"

text \<open>
  Modelled from the spec: \<open>common::RawBitmap::SizeInBytes(n)\<close> (the bitmap header is not
  among the sources) is the spec's "reserve bitmap \<open>ceil(n/8)\<close> bytes".
\<close>

definition SizeInBytes :: "nat \<Rightarrow> nat" where
  "SizeInBytes n = (n + 7) div 8"

section \<open>Block layout\<close>

text \<open>
  Modelled from the spec: \<open>BlockLayout\<close> (\<open>storage/storage_defs.h\<close> is not among the
  sources) is \<open>{ num_cols: u16, attr_sizes: [u8; num_cols] }\<close> with the derived number of
  slots. \<open>AttrSize\<close> of a column id outside the layout is undefined behaviour in the source;
  every theorem below that reads an attribute size assumes the id is a column of the layout.
\<close>

record BlockLayout =
  attr_sizes :: "nat list"
  num_slots :: nat

definition NumCols :: "BlockLayout \<Rightarrow> nat" where
  "NumCols layout = length (attr_sizes layout)"

definition AttrSize :: "BlockLayout \<Rightarrow> nat \<Rightarrow> nat" where
  "AttrSize layout col = attr_sizes layout ! col"

definition NumSlots :: "BlockLayout \<Rightarrow> nat" where
  "NumSlots layout = num_slots layout"

text \<open>
  The invariant of the spec's data model: at most \<open>65535\<close> columns (the count is a
  \<open>uint16_t\<close>) and every attribute size one of 1, 2, 4, 8, 16.
\<close>

definition valid_layout :: "BlockLayout \<Rightarrow> bool" where
  "valid_layout layout =
     (NumCols layout < 2 ^ 16 \<and> list_all (\<lambda>s. s \<in> {1, 2, 4, 8, 16}) (attr_sizes layout))"

text \<open>
  A valid projection list: not empty, without repetition, and only columns of the layout.
\<close>

definition valid_col_ids :: "BlockLayout \<Rightarrow> nat list \<Rightarrow> bool" where
  "valid_col_ids layout col_ids =
     (col_ids \<noteq> [] \<and> distinct col_ids \<and> list_all (\<lambda>c. c < NumCols layout) col_ids)"

section \<open>ProjectedRowInitializer\<close>

text \<open>
  \<open>TERRIER_ASSERT\<close> aborts in a debug build; the model is the debug build, and a failed
  assertion is an error value naming the assertion.
\<close>

datatype error = EmptyProjectedRow | NotFewerColumnsThanTable | UnalignedHead

text \<open>
  The fields \<open>size_\<close>, \<open>col_ids_\<close> and \<open>offsets_\<close> of the class (a name cannot end in an
  underscore here).
\<close>

record PRInitializer =
  init_size :: nat
  init_col_ids :: "nat list"
  init_offsets :: "nat list"

text \<open>
  The loop of the constructor, lines 39 to 45 of \<open>delta_record.cpp\<close>:
  \<^verbatim>\<open>for (uint32_t i = 0; i < col_ids_.size(); i++) {
    offsets_[i] = size_;
    auto next_size = static_cast<uint8_t>(
        i == col_ids_.size() - 1 ? sizeof(uint64_t) : layout.AttrSize(col_ids_[i + 1]));
    size_ = StorageUtil::PadUpToSize(next_size, size_ + layout.AttrSize(col_ids_[i]));
  }\<close>
  The state of the loop is the pair of \<open>offsets_\<close> and \<open>size_\<close>.
\<close>

function init_loop :: "BlockLayout \<Rightarrow> nat list \<Rightarrow> nat \<Rightarrow> nat list \<times> nat \<Rightarrow> nat list \<times> nat" where
  "init_loop layout col_ids i (offsets, sz) =
     (if i < length col_ids then
        (let offsets' = offsets[i := sz];
             next_size = (if i = length col_ids - 1 then 8 else AttrSize layout (col_ids ! (i + 1)));
             sz' = u32 (PadUpToSize next_size (u32 (sz + AttrSize layout (col_ids ! i))))
         in init_loop layout col_ids (i + 1) (offsets', sz'))
      else (offsets, sz))"
  by pat_completeness auto
termination
  by (relation "measure (\<lambda>(layout, col_ids, i, st). length col_ids - i)") auto

text \<open>
  Lines 31 to 38 of the constructor: the header, the column ids padded to 4 bytes, the
  offsets padded to 8 bytes, and the bitmap padded to the size of the first value.
  \<open>sizeof(ProjectedRow)\<close> comes from the absent header \<open>storage/delta_record.h\<close> and is a
  parameter.
\<close>

definition initial_size :: "nat \<Rightarrow> BlockLayout \<Rightarrow> nat list \<Rightarrow> nat" where
  "initial_size sizeof_ProjectedRow layout col_ids =
     (let n = length col_ids;
          sz = u32 sizeof_ProjectedRow;
          sz = u32 (PadUpToSize 4 (u32 (sz + u32 (n * 2))));
          sz = u32 (PadUpToSize 8 (u32 (sz + u32 (n * 4))))
      in u32 (PadUpToSize (AttrSize layout (col_ids ! 0)) (u32 (sz + SizeInBytes (u32 n)))))"

text \<open>
  The constructor, lines 18 to 46. The member initialiser \<open>col_ids_(std::move(col_ids))\<close>
  moves the argument into the member \<open>col_ids_\<close>, which leaves the parameter \<open>col_ids\<close> an
  empty vector, and \<open>offsets_\<close> starts as that many zeros. The first assertion reads the
  member; the second reads the size of the parameter.
\<close>

definition ProjectedRowInitializer :: "nat \<Rightarrow> BlockLayout \<Rightarrow> nat list \<Rightarrow> error + PRInitializer" where
  "ProjectedRowInitializer sizeof_ProjectedRow layout col_ids_arg =
     (let col_ids_m = col_ids_arg;
          col_ids = ([] :: nat list);
          offsets_m = replicate (length col_ids_m) (0 :: nat)
      in if col_ids_m = [] then Inl EmptyProjectedRow
         else if \<not> length col_ids < NumCols layout then Inl NotFewerColumnsThanTable
         else
           (let col_ids_m = sort col_ids_m;
                sz = initial_size sizeof_ProjectedRow layout col_ids_m;
                (offsets_m, sz) = init_loop layout col_ids_m 0 (offsets_m, sz)
            in Inr \<lparr>init_size = sz, init_col_ids = col_ids_m, init_offsets = offsets_m\<rparr>))"

text \<open>The accessors \<open>ProjectedRowSize\<close>, \<open>NumCols\<close> and \<open>ColId\<close> of the initializer.\<close>

definition ProjectedRowSize :: "PRInitializer \<Rightarrow> nat" where
  "ProjectedRowSize init = init_size init"

subsection \<open>The construction algorithm in the words of the specification\<close>

text \<open>
  Step 3 of the specification: for each column record the current size as its offset,
  advance by its attribute size, and pad to the next column's attribute size or, at the
  last column, to 8. No machine arithmetic here: sizes are natural numbers.
\<close>

fun spec_offsets :: "BlockLayout \<Rightarrow> nat \<Rightarrow> nat list \<Rightarrow> nat list \<times> nat" where
  "spec_offsets layout sz [] = ([], sz)"
| "spec_offsets layout sz [c] = ([sz], PadUpToSize 8 (sz + AttrSize layout c))"
| "spec_offsets layout sz (c # d # cs) =
     (let (offs, total) = spec_offsets layout (PadUpToSize (AttrSize layout d) (sz + AttrSize layout c)) (d # cs)
      in (sz # offs, total))"

text \<open>Steps 1 and 2: sort, then the header, the column ids, the offsets and the bitmap.\<close>

definition spec_start :: "nat \<Rightarrow> BlockLayout \<Rightarrow> nat list \<Rightarrow> nat" where
  "spec_start header_size layout ids =
     (let n = length ids;
          s1 = PadUpToSize 4 (header_size + 2 * n);
          s2 = PadUpToSize 8 (s1 + 4 * n)
      in PadUpToSize (AttrSize layout (ids ! 0)) (s2 + (n + 7) div 8))"

definition spec_initializer :: "nat \<Rightarrow> BlockLayout \<Rightarrow> nat list \<Rightarrow> PRInitializer" where
  "spec_initializer header_size layout col_ids =
     (let ids = sort col_ids;
          (offs, total) = spec_offsets layout (spec_start header_size layout ids) ids
      in \<lparr>init_size = total, init_col_ids = ids, init_offsets = offs\<rparr>)"

section \<open>Projected rows\<close>

text \<open>
  Modelled from the spec: \<open>common::RawBitmap\<close> and \<open>common::RawConcurrentBitmap\<close> (their
  headers are not among the sources) are packed bit arrays; a bitmap is the function from
  a bit position to the bit. \<open>Test\<close> reads a bit. \<open>Clear(n)\<close> zeroes the bitmap of \<open>n\<close>
  bits, which occupies \<open>ceil(n/8)\<close> whole bytes. \<open>Flip(pos, expected)\<close> toggles the bit
  when it is observed at \<open>expected\<close> and returns whether it did; the model is the
  single-threaded run, where the compare-and-swap of the loop succeeds at once.
\<close>

type_synonym RawBitmap = "nat \<Rightarrow> bool"

definition Test :: "RawBitmap \<Rightarrow> nat \<Rightarrow> bool" where
  "Test bits pos = bits pos"

definition Clear :: "RawBitmap \<Rightarrow> nat \<Rightarrow> RawBitmap" where
  "Clear bits num_bits = (\<lambda>pos. if pos < 8 * SizeInBytes num_bits then False else bits pos)"

definition Flip :: "RawBitmap \<Rightarrow> nat \<Rightarrow> bool \<Rightarrow> RawBitmap \<times> bool" where
  "Flip bits pos expected_val =
     (if bits pos = expected_val then (bits(pos := \<not> bits pos), True) else (bits, False))"

text \<open>
  Modelled from the spec: the class \<open>ProjectedRow\<close> (\<open>storage/delta_record.h\<close> is not among
  the sources) is the record
  \<open>{ size: u32, num_cols: u16, col_ids: [u16; num_cols], attr_offsets: [u32; num_cols],
  null_bitmap, values }\<close> laid over a buffer. Following the spec's design note it is a typed
  view of the buffer: the fields \<open>size_\<close> and \<open>num_cols_\<close>, the arrays behind \<open>ColumnIds()\<close>
  and \<open>AttrValueOffsets()\<close> as functions of the index (the buffer holds whatever it held
  before beyond the entries written) and the bitmap behind \<open>Bitmap()\<close>. The value bytes are
  not modelled. Memory is a function from the address of a buffer to the row laid over it;
  buffers at different addresses do not overlap.
\<close>

record ProjectedRow =
  row_size :: nat
  row_num_cols :: nat
  ColumnIds :: "nat \<Rightarrow> nat"
  AttrValueOffsets :: "nat \<Rightarrow> nat"
  Bitmap :: RawBitmap

type_synonym row_memory = "nat \<Rightarrow> ProjectedRow"

text \<open>
  Modelled from the spec: the accessors \<open>NumColumns\<close>, \<open>ColumnId\<close> and
  \<open>AccessWithNullCheck\<close> of a projected row at address \<open>head\<close>; the last returns the
  address of the value slot when the bit of the column is set and \<open>nullptr\<close> (\<open>None\<close>)
  otherwise.
\<close>

definition NumColumns :: "ProjectedRow \<Rightarrow> nat" where
  "NumColumns row = row_num_cols row"

definition ColumnId :: "ProjectedRow \<Rightarrow> nat \<Rightarrow> nat" where
  "ColumnId row i = ColumnIds row i"

definition row_AccessWithNullCheck :: "row_memory \<Rightarrow> nat \<Rightarrow> nat \<Rightarrow> nat option" where
  "row_AccessWithNullCheck mem head i =
     (if \<not> Test (Bitmap (mem head)) i then None
      else Some (head + AttrValueOffsets (mem head) i))"

text \<open>
  The two copying loops of \<open>InitializeRow\<close>, lines 55 and 56:
  \<^verbatim>\<open>for (uint32_t i = 0; i < col_ids_.size(); i++) result->ColumnIds()[i] = col_ids_[i];\<close>
\<close>

function store_loop :: "nat list \<Rightarrow> nat \<Rightarrow> nat \<Rightarrow> (nat \<Rightarrow> nat) \<Rightarrow> (nat \<Rightarrow> nat)" where
  "store_loop src n i dst =
     (if i < n then store_loop src n (i + 1) (dst(i := src ! i)) else dst)"
  by pat_completeness auto
termination
  by (relation "measure (\<lambda>(src, n, i, dst). n - i)") auto

text \<open>
  \<open>InitializeRow(head)\<close>, lines 48 to 59: the assertion on the alignment of \<open>head\<close>, then
  the writes through \<open>result\<close>, which is \<open>head\<close> itself. It returns the memory after the
  writes and the pointer.
\<close>

definition InitializeRow :: "PRInitializer \<Rightarrow> row_memory \<Rightarrow> nat \<Rightarrow> error + row_memory \<times> nat" where
  "InitializeRow init mem head =
     (if head mod 8 \<noteq> 0 then Inl UnalignedHead
      else
        (let n = length (init_col_ids init);
             result = mem head;
             result = result\<lparr>row_size := init_size init\<rparr>;
             result = result\<lparr>row_num_cols := u16 n\<rparr>;
             result = result\<lparr>ColumnIds := store_loop (init_col_ids init) n 0 (ColumnIds result)\<rparr>;
             result = result\<lparr>AttrValueOffsets :=
                        store_loop (init_offsets init) n 0 (AttrValueOffsets result)\<rparr>;
             result = result\<lparr>Bitmap := Clear (Bitmap result) (row_num_cols result)\<rparr>
         in Inr (mem(head := result), head)))"

text \<open>
  \<open>CopyProjectedRowLayout(head, other)\<close>, lines 9 to 15. The \<open>memcpy\<close> copies the bytes of
  \<open>other\<close> that precede its bitmap: the two scalar fields and the first \<open>num_cols_\<close> entries
  of both arrays. The bitmap of the copy is then cleared for the copied \<open>num_cols_\<close>.
\<close>

definition memcpy_header :: "ProjectedRow \<Rightarrow> ProjectedRow \<Rightarrow> ProjectedRow" where
  "memcpy_header dst src =
     dst\<lparr>row_size := row_size src,
         row_num_cols := row_num_cols src,
         ColumnIds := (\<lambda>i. if i < row_num_cols src then ColumnIds src i else ColumnIds dst i),
         AttrValueOffsets :=
           (\<lambda>i. if i < row_num_cols src then AttrValueOffsets src i else AttrValueOffsets dst i)\<rparr>"

definition CopyProjectedRowLayout :: "row_memory \<Rightarrow> nat \<Rightarrow> nat \<Rightarrow> row_memory \<times> nat" where
  "CopyProjectedRowLayout mem head other =
     (let result = memcpy_header (mem head) (mem other);
          result = result\<lparr>Bitmap := Clear (Bitmap result) (row_num_cols result)\<rparr>
      in (mem(head := result), head))"

section \<open>Tuple access strategy\<close>

text \<open>
  Modelled from the spec: \<open>TupleSlot\<close> (\<open>storage/storage_defs.h\<close>) packs the pointer to a
  block, aligned to 1 MiB, and an offset in the low 20 bits of one word.
\<close>

datatype TupleSlot = TupleSlot nat

fun GetBlock :: "TupleSlot \<Rightarrow> nat" where
  "GetBlock (TupleSlot bytes) = bytes - bytes mod 2 ^ 20"

fun GetOffset :: "TupleSlot \<Rightarrow> nat" where
  "GetOffset (TupleSlot bytes) = bytes mod 2 ^ 20"

text \<open>
  A block as the access strategy sees it (the nested classes \<open>Block\<close> and \<open>MiniBlock\<close> of
  the header): the counter \<open>num_records_\<close> of the raw block, an unsigned 32-bit integer, the
  array \<open>AttrOffets()\<close> of the block header, and one mini block per column, of which only
  the presence bitmap is modelled. The view takes the header and the mini blocks of the
  columns for disjoint regions of the block, as \<open>InitializeRawBlock\<close> is documented to lay
  them out, so a write to the bitmap of one column changes no other field. Memory is a
  function from the address of a block to the block. The operations are modelled in a
  single thread: the atomic counter is a plain counter.
\<close>

record MiniBlock =
  PresenceBitmap :: RawBitmap

record RawBlock =
  num_records :: "32 word"
  AttrOffets :: "nat list"
  columns :: "nat \<Rightarrow> MiniBlock"

type_synonym block_memory = "nat \<Rightarrow> RawBlock"

definition PRESENCE_COLUMN_ID :: nat where
  "PRESENCE_COLUMN_ID = 0"

text \<open>\<open>Block::Column(offset)\<close>: the address of the mini block of a column.\<close>

definition Column :: "block_memory \<Rightarrow> nat \<Rightarrow> nat \<Rightarrow> nat" where
  "Column mem block offset = block + AttrOffets (mem block) ! offset"

text \<open>\<open>MiniBlock::ColumnStart(layout, col)\<close> for the mini block at address \<open>mini\<close>.\<close>

definition MiniBlock_ColumnStart :: "BlockLayout \<Rightarrow> nat \<Rightarrow> nat \<Rightarrow> nat" where
  "MiniBlock_ColumnStart layout mini col =
     AlignedPtr (AttrSize layout col) (mini + SizeInBytes (NumSlots layout))"

definition ColumnNullBitmap :: "block_memory \<Rightarrow> nat \<Rightarrow> nat \<Rightarrow> RawBitmap" where
  "ColumnNullBitmap mem block col = PresenceBitmap (columns (mem block) col)"

text \<open>A write through the pointer that \<open>ColumnNullBitmap\<close> returns.\<close>

definition set_ColumnNullBitmap :: "block_memory \<Rightarrow> nat \<Rightarrow> nat \<Rightarrow> RawBitmap \<Rightarrow> block_memory" where
  "set_ColumnNullBitmap mem block col bits =
     mem(block := (mem block)\<lparr>columns := (columns (mem block))(col := \<lparr>PresenceBitmap = bits\<rparr>)\<rparr>)"

definition ColumnStart :: "BlockLayout \<Rightarrow> block_memory \<Rightarrow> nat \<Rightarrow> nat \<Rightarrow> nat" where
  "ColumnStart layout mem block col = MiniBlock_ColumnStart layout (Column mem block col) col"

text \<open>
  \<open>AccessWithNullCheck\<close>, lines 162 to 165 of the header. The product
  \<open>layout_.AttrSize(col) * slot.GetOffset()\<close> is an unsigned 32-bit product.
\<close>

definition AccessWithNullCheck :: "BlockLayout \<Rightarrow> block_memory \<Rightarrow> TupleSlot \<Rightarrow> nat \<Rightarrow> nat option" where
  "AccessWithNullCheck layout mem slot col =
     (if \<not> Test (ColumnNullBitmap mem (GetBlock slot) col) (GetOffset slot) then None
      else Some (ColumnStart layout mem (GetBlock slot) col
                 + u32 (AttrSize layout col * GetOffset slot)))"

text \<open>\<open>AccessForceNotNull\<close>, lines 186 to 190: the memory after the call and the pointer.\<close>

definition AccessForceNotNull :: "BlockLayout \<Rightarrow> block_memory \<Rightarrow> TupleSlot \<Rightarrow> nat \<Rightarrow> block_memory \<times> nat" where
  "AccessForceNotNull layout mem slot col =
     (let bitmap = ColumnNullBitmap mem (GetBlock slot) col;
          mem' = (if \<not> Test bitmap (GetOffset slot)
                  then set_ColumnNullBitmap mem (GetBlock slot) col
                         (fst (Flip bitmap (GetOffset slot) False))
                  else mem)
      in (mem', ColumnStart layout mem' (GetBlock slot) col
                + u32 (AttrSize layout col * GetOffset slot)))"

text \<open>
  \<open>SetNull\<close>, lines 198 to 202: the flip is evaluated first, and the counter of the block
  is decremented only when the flip succeeded and the column is the presence column.
\<close>

definition SetNull :: "block_memory \<Rightarrow> TupleSlot \<Rightarrow> nat \<Rightarrow> block_memory" where
  "SetNull mem slot col =
     (let (bits, flipped) = Flip (ColumnNullBitmap mem (GetBlock slot) col) (GetOffset slot) True;
          mem' = set_ColumnNullBitmap mem (GetBlock slot) col bits
      in if flipped \<and> col = PRESENCE_COLUMN_ID
         then mem'(GetBlock slot :=
                (mem' (GetBlock slot))\<lparr>num_records := num_records (mem' (GetBlock slot)) - 1\<rparr>)
         else mem')"

text \<open>The presence bit of a column for a slot, as the claims speak of it.\<close>

definition presence_bit :: "block_memory \<Rightarrow> TupleSlot \<Rightarrow> nat \<Rightarrow> bool" where
  "presence_bit mem slot col = Test (ColumnNullBitmap mem (GetBlock slot) col) (GetOffset slot)"

section \<open>Object pool\<close>

text \<open>
  Modelled from the spec: the allocator (\<open>common/allocator.h\<close> is not among the sources)
  hands out fresh objects and frees them. Objects are addresses; the allocator records the
  next fresh address and the objects that are allocated and not yet freed. \<open>Reuse\<close> leaves
  the allocator as it is.
\<close>

record Allocator =
  next_fresh :: nat
  live :: "nat list"

definition New :: "Allocator \<Rightarrow> Allocator \<times> nat" where
  "New a = (a\<lparr>next_fresh := next_fresh a + 1, live := next_fresh a # live a\<rparr>, next_fresh a)"

definition Reuse :: "Allocator \<Rightarrow> nat \<Rightarrow> Allocator" where
  "Reuse a obj = a"

definition Delete :: "Allocator \<Rightarrow> nat \<Rightarrow> Allocator" where
  "Delete a obj = a\<lparr>live := removeAll obj (live a)\<rparr>"

text \<open>
  Modelled from the spec: \<open>ConcurrentQueue\<close> (\<open>common/container/concurrent_queue.h\<close> is not
  among the sources) is a first-in first-out queue; the model is the single-threaded run.
\<close>

definition Dequeue :: "nat list \<Rightarrow> (nat \<times> nat list) option" where
  "Dequeue q = (case q of [] \<Rightarrow> None | x # xs \<Rightarrow> Some (x, xs))"

definition Enqueue :: "nat list \<Rightarrow> nat \<Rightarrow> nat list" where
  "Enqueue q x = q @ [x]"

definition UnsafeSize :: "nat list \<Rightarrow> nat" where
  "UnsafeSize q = length q"

text \<open>The class \<open>ObjectPool\<close> of \<open>common/object_pool.h\<close>, its constructor, \<open>Get\<close> and \<open>Release\<close>.\<close>

record ObjectPool =
  alloc :: Allocator
  reuse_queue :: "nat list"
  reuse_limit :: nat

definition ObjectPool :: "nat \<Rightarrow> ObjectPool" where
  "ObjectPool limit =
     \<lparr>alloc = \<lparr>next_fresh = 0, live = []\<rparr>, reuse_queue = [], reuse_limit = limit\<rparr>"

definition Get :: "ObjectPool \<Rightarrow> ObjectPool \<times> nat" where
  "Get pool =
     (case Dequeue (reuse_queue pool) of
        None \<Rightarrow> (let (a, result) = New (alloc pool) in (pool\<lparr>alloc := a\<rparr>, result))
      | Some (result, q) \<Rightarrow>
          (pool\<lparr>reuse_queue := q, alloc := Reuse (alloc pool) result\<rparr>, result))"

definition Release :: "ObjectPool \<Rightarrow> nat \<Rightarrow> ObjectPool" where
  "Release pool obj =
     (if UnsafeSize (reuse_queue pool) > reuse_limit pool
      then pool\<lparr>alloc := Delete (alloc pool) obj\<rparr>
      else pool\<lparr>reuse_queue := Enqueue (reuse_queue pool) obj\<rparr>)"

text \<open>A client of the pool: any sequence of calls of \<open>Get\<close> and \<open>Release\<close>.\<close>

datatype pool_call = CallGet | CallRelease nat

fun run_calls :: "ObjectPool \<Rightarrow> pool_call list \<Rightarrow> ObjectPool" where
  "run_calls pool [] = pool"
| "run_calls pool (CallGet # cs) = run_calls (fst (Get pool)) cs"
| "run_calls pool (CallRelease obj # cs) = run_calls (Release pool obj) cs"

text \<open>
  The invariant of the allocator: every object that is allocated lies below the next fresh
  address, so a fresh object is never one that is still allocated.
\<close>

definition fresh_above :: "Allocator \<Rightarrow> bool" where
  "fresh_above a = list_all (\<lambda>x. x < next_fresh a) (live a)"

section \<open>Properties of the projected-row initializer\<close>

text \<open>
  The recursion equation of the loop is used one iteration at a time, through the two
  lemmas that follow.
\<close>

declare init_loop.simps [simp del]

lemma init_loop_step:
  "i < length col_ids \<Longrightarrow>
   init_loop layout col_ids i (offsets, sz) =
     init_loop layout col_ids (Suc i)
       (offsets[i := sz],
        u32 (PadUpToSize (if Suc i = length col_ids then 8 else AttrSize layout (col_ids ! Suc i))
               (u32 (sz + AttrSize layout (col_ids ! i)))))"
  by (subst init_loop.simps) (auto simp: Let_def)

lemma init_loop_stop:
  "\<not> i < length col_ids \<Longrightarrow> init_loop layout col_ids i (offsets, sz) = (offsets, sz)"
  by (subst init_loop.simps) simp

lemma PadUpToSize_mod: "PadUpToSize w x mod w = 0"
proof (cases "x mod w = 0")
  case True
  then show ?thesis by (simp add: PadUpToSize_def)
next
  case False
  have "w * (x div w) + x mod w = x" by (rule mult_div_mod_eq)
  then have "x + w - x mod w = w * (x div w) + w" by arith
  then have "(x + w - x mod w) mod w = 0" by simp
  then show ?thesis using False by (simp add: PadUpToSize_def)
qed

lemma PadUpToSize_ge: "0 < w \<Longrightarrow> x \<le> PadUpToSize w x"
proof -
  assume w: "0 < w"
  then have "x mod w < w" by simp
  then have "x \<le> x + w - x mod w" by arith
  then show ?thesis by (simp add: PadUpToSize_def)
qed

lemma PadUpToSize_less: "0 < w \<Longrightarrow> PadUpToSize w x < x + w"
  by (auto simp: PadUpToSize_def)

lemma u32_mod_pow2: "w \<in> {1, 2, 4, 8, 16} \<Longrightarrow> u32 x mod w = x mod w"
proof -
  assume "w \<in> {1, 2, 4, 8, 16}"
  then have "w dvd (2 ^ 32 :: nat)" by auto
  then show ?thesis unfolding u32_def by (rule mod_mod_cancel)
qed

lemma u32_id: "x < 2 ^ 32 \<Longrightarrow> u32 x = x"
  by (simp add: u32_def)

lemma u32_pad_aligned: "w \<in> {1, 2, 4, 8, 16} \<Longrightarrow> u32 (PadUpToSize w x) mod w = 0"
  by (simp only: u32_mod_pow2 PadUpToSize_mod)

lemma init_loop_length:
  "length (fst (init_loop layout ids i (offs, sz))) = length offs"
proof (induction "length ids - i" arbitrary: i offs sz)
  case 0
  then show ?case by (simp add: init_loop_stop)
next
  case (Suc k)
  then have "i < length ids" and "k = length ids - Suc i" by arith+
  then show ?case using Suc.hyps(1) by (simp add: init_loop_step)
qed

lemma init_loop_aligned:
  assumes "\<forall>c\<in>set ids. AttrSize layout c \<in> {1, 2, 4, 8, 16}"
    and "length offs = length ids"
    and "\<forall>j<i. offs ! j mod AttrSize layout (ids ! j) = 0"
    and "i < length ids \<longrightarrow> sz mod AttrSize layout (ids ! i) = 0"
  shows "\<forall>j<length ids. fst (init_loop layout ids i (offs, sz)) ! j mod AttrSize layout (ids ! j) = 0"
  using assms
proof (induction "length ids - i" arbitrary: i offs sz)
  case 0
  then have "\<not> i < length ids" by simp
  then show ?case using "0.prems" by (simp add: init_loop_stop)
next
  case (Suc k)
  then have i: "i < length ids" and k: "k = length ids - Suc i" by arith+
  let ?next = "if Suc i = length ids then 8 else AttrSize layout (ids ! Suc i)"
  let ?sz = "u32 (PadUpToSize ?next (u32 (sz + AttrSize layout (ids ! i))))"
  have len: "length (offs[i := sz]) = length ids" using Suc.prems(2) by simp
  have prev: "\<forall>j<Suc i. offs[i := sz] ! j mod AttrSize layout (ids ! j) = 0"
  proof (intro allI impI)
    fix j assume "j < Suc i"
    then consider "j < i" | "j = i" by arith
    then show "offs[i := sz] ! j mod AttrSize layout (ids ! j) = 0"
    proof cases
      case 1
      then show ?thesis using Suc.prems(3) by simp
    next
      case 2
      then show ?thesis using Suc.prems(2,4) i by simp
    qed
  qed
  have cur: "Suc i < length ids \<longrightarrow> ?sz mod AttrSize layout (ids ! Suc i) = 0"
  proof
    assume s: "Suc i < length ids"
    then have "AttrSize layout (ids ! Suc i) \<in> {1, 2, 4, 8, 16}"
      using Suc.prems(1) nth_mem by blast
    then show "?sz mod AttrSize layout (ids ! Suc i) = 0"
      using s by (simp add: u32_pad_aligned)
  qed
  show ?case
    unfolding init_loop_step [OF i]
    by (rule Suc.hyps(1) [OF k Suc.prems(1) len prev cur])
qed

lemma initial_size_aligned:
  "AttrSize layout (ids ! 0) \<in> {1, 2, 4, 8, 16} \<Longrightarrow>
   initial_size hdr layout ids mod AttrSize layout (ids ! 0) = 0"
  by (simp add: initial_size_def Let_def u32_pad_aligned)

lemma ctor_Inr:
  assumes "ids \<noteq> []" and "0 < NumCols layout"
  shows "ProjectedRowInitializer hdr layout ids =
     Inr \<lparr>init_size = snd (init_loop layout (sort ids) 0
                           (replicate (length ids) 0, initial_size hdr layout (sort ids))),
          init_col_ids = sort ids,
          init_offsets = fst (init_loop layout (sort ids) 0
                           (replicate (length ids) 0, initial_size hdr layout (sort ids)))\<rparr>"
  using assms by (simp add: ProjectedRowInitializer_def Let_def split_beta)

lemma valid_col_ids_NumCols: "valid_col_ids layout ids \<Longrightarrow> 0 < NumCols layout"
  by (cases ids) (auto simp: valid_col_ids_def)

lemma valid_attr:
  "valid_layout layout \<Longrightarrow> c < NumCols layout \<Longrightarrow> AttrSize layout c \<in> {1, 2, 4, 8, 16}"
  unfolding valid_layout_def NumCols_def AttrSize_def list_all_length by blast

lemma valid_attrs_sorted:
  assumes "valid_layout layout" and "valid_col_ids layout ids"
  shows "\<forall>c\<in>set (sort ids). AttrSize layout c \<in> {1, 2, 4, 8, 16}"
proof
  fix c assume "c \<in> set (sort ids)"
  then have "c \<in> set ids" by simp
  then have "c < NumCols layout" using assms(2) by (simp add: valid_col_ids_def list_all_iff)
  then show "AttrSize layout c \<in> {1, 2, 4, 8, 16}" by (rule valid_attr [OF assms(1)])
qed

lemma offsets_aligned:
  assumes "valid_layout layout" and "valid_col_ids layout ids"
    and "ProjectedRowInitializer hdr layout ids = Inr init"
    and "i < length ids"
  shows "init_offsets init ! i mod AttrSize layout (init_col_ids init ! i) = 0"
proof -
  let ?ids = "sort ids"
  have ne: "ids \<noteq> []" using assms(2) by (simp add: valid_col_ids_def)
  have attrs: "\<forall>c\<in>set ?ids. AttrSize layout c \<in> {1, 2, 4, 8, 16}"
    using assms(1,2) by (rule valid_attrs_sorted)
  have "?ids ! 0 \<in> set ?ids" using ne by (intro nth_mem) simp
  then have a0: "AttrSize layout (?ids ! 0) \<in> {1, 2, 4, 8, 16}" using attrs by blast
  have "\<forall>j<length ?ids. fst (init_loop layout ?ids 0
          (replicate (length ids) 0, initial_size hdr layout ?ids)) ! j
            mod AttrSize layout (?ids ! j) = 0"
    by (rule init_loop_aligned [OF attrs]) (simp_all add: initial_size_aligned [OF a0])
  moreover have "init = \<lparr>init_size = snd (init_loop layout ?ids 0
                           (replicate (length ids) 0, initial_size hdr layout ?ids)),
          init_col_ids = ?ids,
          init_offsets = fst (init_loop layout ?ids 0
                           (replicate (length ids) 0, initial_size hdr layout ?ids))\<rparr>"
    using assms(3) ctor_Inr [OF ne valid_col_ids_NumCols [OF assms(2)], of hdr] by simp
  ultimately show ?thesis using assms(4) by simp
qed

lemma address_aligned:
  assumes "a \<in> {1, 2, 4, 8, 16}" and "off mod a = 0" and "head mod 8 = 0"
  shows "(head + off) mod (min 8 a) = (0::nat)"
proof -
  have "min 8 a dvd a" using assms(1) by auto
  moreover have "a dvd off" using assms(2) by (simp add: dvd_eq_mod_eq_0)
  ultimately have "min 8 a dvd off" by (rule dvd_trans)
  moreover have "min 8 a dvd (8::nat)" using assms(1) by auto
  then have "min 8 a dvd head" using assms(3) by (meson dvd_trans dvd_eq_mod_eq_0 mod_0_imp_dvd)
  ultimately show ?thesis by (simp add: dvd_eq_mod_eq_0 [symmetric])
qed

lemma spec_offsets_Cons:
  "spec_offsets layout sz (c # rest) =
     (sz # fst (spec_offsets layout
                  (PadUpToSize (if rest = [] then 8 else AttrSize layout (hd rest))
                     (sz + AttrSize layout c)) rest),
      snd (spec_offsets layout
             (PadUpToSize (if rest = [] then 8 else AttrSize layout (hd rest))
                (sz + AttrSize layout c)) rest))"
  by (cases rest) (simp_all add: split_beta)

lemma pad_no_wrap:
  assumes "0 < w" and "x + w \<le> 2 ^ 32"
  shows "u32 (PadUpToSize w (u32 x)) = PadUpToSize w x"
proof -
  have x: "u32 x = x" using assms by (simp add: u32_id)
  have "PadUpToSize w x < x + w" using assms(1) by (rule PadUpToSize_less)
  then have "PadUpToSize w x < 2 ^ 32" using assms(2) by simp
  then show ?thesis by (simp add: x u32_id)
qed

lemma init_loop_refines:
  assumes "\<forall>c\<in>set ids. AttrSize layout c \<in> {1, 2, 4, 8, 16}"
    and "length offs = length ids"
    and "i \<le> length ids"
    and "sz + 31 * (length ids - i) < 2 ^ 32"
  shows "init_loop layout ids i (offs, sz) =
           (take i offs @ fst (spec_offsets layout sz (drop i ids)),
            snd (spec_offsets layout sz (drop i ids)))"
  using assms
proof (induction "length ids - i" arbitrary: i offs sz)
  case 0
  then have "i = length ids" by simp
  then show ?case using "0.prems"(2) by (simp add: init_loop_stop)
next
  case (Suc k)
  then have i: "i < length ids" and k: "k = length ids - Suc i" by arith+
  let ?rest = "drop (Suc i) ids"
  let ?next = "if Suc i = length ids then 8 else AttrSize layout (ids ! Suc i)"
  let ?a = "AttrSize layout (ids ! i)"
  let ?sz = "PadUpToSize ?next (sz + ?a)"
  have a: "?a \<in> {1, 2, 4, 8, 16}" using Suc.prems(1) i nth_mem by blast
  have nx: "?next \<in> {1, 2, 4, 8, 16}"
  proof (cases "Suc i = length ids")
    case True
    then show ?thesis by simp
  next
    case False
    then have "Suc i < length ids" using i by simp
    then have "AttrSize layout (ids ! Suc i) \<in> {1, 2, 4, 8, 16}"
      using Suc.prems(1) nth_mem by blast
    then show ?thesis using False by simp
  qed
  have a16: "?a \<le> 16" using a by auto
  have nx16: "0 < ?next" "?next \<le> 16" using nx by auto
  have room: "sz + 32 \<le> 2 ^ 32" using Suc.prems(4) i by simp
  have nowrap: "u32 (PadUpToSize ?next (u32 (sz + ?a))) = ?sz"
    by (rule pad_no_wrap [OF nx16(1)]) (use a16 nx16(2) room in simp)
  have "?sz < sz + ?a + ?next" using nx16(1) by (rule PadUpToSize_less)
  then have "?sz \<le> sz + 31" using a16 nx16(2) by simp
  then have bound: "?sz + 31 * (length ids - Suc i) < 2 ^ 32"
    using Suc.prems(4) i by simp
  have len: "length (offs[i := sz]) = length ids" using Suc.prems(2) by simp
  have il: "i < length offs" using i Suc.prems(2) by simp
  have tk: "take (Suc i) (offs[i := sz]) = take i offs @ [sz]"
    using il by (simp add: take_Suc_conv_app_nth)
  have dr: "drop i ids = ids ! i # ?rest" using i by (simp add: Cons_nth_drop_Suc)
  have nxt: "(if ?rest = [] then 8 else AttrSize layout (hd ?rest)) = ?next"
    using i by (auto simp: hd_drop_conv_nth)
  have IH: "init_loop layout ids (Suc i) (offs[i := sz], ?sz) =
           (take (Suc i) (offs[i := sz]) @ fst (spec_offsets layout ?sz ?rest),
            snd (spec_offsets layout ?sz ?rest))"
    by (rule Suc.hyps(1) [OF k Suc.prems(1) len _ bound]) (use i in simp)
  show ?case
    unfolding init_loop_step [OF i] nowrap IH dr spec_offsets_Cons nxt tk by simp
qed

lemma distinct_length_le:
  assumes "distinct ids" and "list_all (\<lambda>c. c < N) ids"
  shows "length ids \<le> (N::nat)"
proof -
  have "set ids \<subseteq> {..<N}" using assms(2) by (auto simp: list_all_iff)
  then have "card (set ids) \<le> card {..<N}" by (intro card_mono) simp_all
  then show ?thesis using assms(1) by (simp add: distinct_card)
qed

lemma initial_size_spec:
  assumes a0: "AttrSize layout (ids ! 0) \<in> {1, 2, 4, 8, 16}"
    and n: "length ids < 2 ^ 16" and h: "hdr < 2 ^ 31"
  shows "initial_size hdr layout ids = spec_start hdr layout ids"
    and "spec_start hdr layout ids + 31 * length ids < 2 ^ 32"
proof -
  let ?n = "length ids"
  let ?s1 = "PadUpToSize 4 (hdr + ?n * 2)"
  let ?s2 = "PadUpToSize 8 (?s1 + ?n * 4)"
  let ?a = "AttrSize layout (ids ! 0)"
  let ?s3 = "PadUpToSize ?a (?s2 + (?n + 7) div 8)"
  have a16: "0 < ?a" "?a \<le> 16" using a0 by auto
  have b1: "?s1 < hdr + ?n * 2 + 4" by (rule PadUpToSize_less) simp
  have b2: "?s2 < ?s1 + ?n * 4 + 8" by (rule PadUpToSize_less) simp
  have b3: "?s3 < ?s2 + (?n + 7) div 8 + ?a" using a16(1) by (rule PadUpToSize_less)
  have d: "(?n + 7) div 8 \<le> ?n + 1" by simp
  have n': "?n < 65536" using n by simp
  have h': "hdr < 2147483648" using h by simp
  have e0: "u32 hdr = hdr" "u32 (?n * 2) = ?n * 2" "u32 (?n * 4) = ?n * 4" "u32 ?n = ?n"
    using n' h' by (simp_all add: u32_def)
  have e1: "u32 (PadUpToSize 4 (u32 (hdr + ?n * 2))) = ?s1"
    by (rule pad_no_wrap) (use n' h' in simp_all)
  have e2: "u32 (PadUpToSize 8 (u32 (?s1 + ?n * 4))) = ?s2"
    by (rule pad_no_wrap) (use n' h' b1 in simp_all)
  have e3: "u32 (PadUpToSize ?a (u32 (?s2 + (?n + 7) div 8))) = ?s3"
    by (rule pad_no_wrap [OF a16(1)]) (use n' h' b1 b2 d a16(2) in simp)
  have "initial_size hdr layout ids = ?s3"
    unfolding initial_size_def Let_def SizeInBytes_def e0 e1 e2 e3 by (rule refl)
  moreover have "spec_start hdr layout ids = ?s3"
    unfolding spec_start_def Let_def by (simp add: mult.commute)
  ultimately show "initial_size hdr layout ids = spec_start hdr layout ids" by simp
  have "?s3 + 31 * ?n < 4294967296" using n' h' b1 b2 b3 d a16(2) by simp
  then show "spec_start hdr layout ids + 31 * length ids < 2 ^ 32"
    unfolding \<open>spec_start hdr layout ids = ?s3\<close> by simp
qed

lemma ctor_length:
  assumes "ids \<noteq> []" and "0 < NumCols layout"
    and "ProjectedRowInitializer hdr layout ids = Inr init"
  shows "init_col_ids init = sort ids" and "length (init_offsets init) = length ids"
proof -
  let ?R = "init_loop layout (sort ids) 0
              (replicate (length ids) 0, initial_size hdr layout (sort ids))"
  have "Inr init = (Inr \<lparr>init_size = snd ?R, init_col_ids = sort ids, init_offsets = fst ?R\<rparr>
          :: error + PRInitializer)"
    using ctor_Inr [OF assms(1,2), of hdr] assms(3) by simp
  then have init: "init = \<lparr>init_size = snd ?R, init_col_ids = sort ids, init_offsets = fst ?R\<rparr>"
    by (simp only: sum.inject)
  show "init_col_ids init = sort ids" unfolding init by simp
  show "length (init_offsets init) = length ids"
    unfolding init by (simp add: init_loop_length)
qed

lemma initial_size_eval:
  "length ids = n \<Longrightarrow>
   initial_size hdr layout ids =
     u32 (PadUpToSize (AttrSize layout (ids ! 0))
       (u32 (u32 (PadUpToSize 8 (u32 (u32 (PadUpToSize 4 (u32 (u32 hdr + u32 (n * 2))))
          + u32 (n * 4)))) + SizeInBytes (u32 n))))"
  by (simp add: initial_size_def Let_def)

lemma spec_start_eval:
  "length ids = n \<Longrightarrow>
   spec_start hdr layout ids =
     PadUpToSize (AttrSize layout (ids ! 0))
       (PadUpToSize 8 (PadUpToSize 4 (hdr + 2 * n) + 4 * n) + (n + 7) div 8)"
  by (simp add: spec_start_def Let_def)

subsection \<open>The assertions of the constructor\<close>

text \<open>
  An empty list of column ids fails the first assertion. The second assertion compares the
  size of the moved-from parameter, which is zero, with the number of columns, so it passes
  for every non-empty list on a layout that has a column.
\<close>

lemma empty_col_ids_rejected:
  "ProjectedRowInitializer hdr layout [] = Inl EmptyProjectedRow"
  by (simp add: ProjectedRowInitializer_def)

lemma second_assertion_passes:
  "ids \<noteq> [] \<Longrightarrow> 0 < NumCols layout \<Longrightarrow>
   ProjectedRowInitializer hdr layout ids \<noteq> Inl NotFewerColumnsThanTable"
  by (simp add: ctor_Inr)

text \<open>
  Claim C1 says that the constructor requires a strict non-empty subset of the columns:
  an empty list fails an assertion, and so does a list with as many ids as the layout has
  columns. The first half holds. The second does not hold of the code: on the two columns
  of a two-column layout the assertions pass and the initializer is built.
\<close>

theorem C1_all_columns_pass_assertion:
  "length [0, 1 :: nat] = NumCols \<lparr>attr_sizes = [8, 4], num_slots = 64\<rparr> \<and>
   ProjectedRowInitializer 8 \<lparr>attr_sizes = [8, 4], num_slots = 64\<rparr> [0, 1] =
     Inr \<lparr>init_size = 48, init_col_ids = [0, 1], init_offsets = [32, 40]\<rparr>"
  by (simp add: ProjectedRowInitializer_def initial_size_eval [where n = 2] NumCols_def
      AttrSize_def SizeInBytes_def u32_def PadUpToSize_def init_loop_step init_loop_stop)

subsection \<open>Alignment of the value slots\<close>

text \<open>
  Claim C2 as stated fails for an attribute of 16 bytes: its offset is a multiple of 16, but
  a buffer whose head is aligned to 8 bytes only puts the slot at a multiple of 8. With the
  one-column projection of a 16-byte column the offset is 32, and at head address 8 the
  slot is at address 40.
\<close>

theorem C2_counterexample:
  "valid_layout \<lparr>attr_sizes = [16, 8], num_slots = 64\<rparr> \<and>
   valid_col_ids \<lparr>attr_sizes = [16, 8], num_slots = 64\<rparr> [0] \<and>
   ProjectedRowInitializer 8 \<lparr>attr_sizes = [16, 8], num_slots = 64\<rparr> [0] =
     Inr \<lparr>init_size = 48, init_col_ids = [0], init_offsets = [32]\<rparr> \<and>
   (8 :: nat) mod 8 = 0 \<and>
   (8 + [32 :: nat] ! 0) mod AttrSize \<lparr>attr_sizes = [16, 8], num_slots = 64\<rparr> ([0] ! 0) \<noteq> 0"
  by (simp add: valid_layout_def valid_col_ids_def ProjectedRowInitializer_def
      initial_size_eval [where n = 1] NumCols_def AttrSize_def SizeInBytes_def u32_def
      PadUpToSize_def init_loop_step init_loop_stop)

text \<open>
  Claim C2, amended: for every layout with attribute sizes in 1, 2, 4, 8, 16 and every
  valid list of column ids the constructor succeeds, and every value slot is at an offset
  divisible by the attribute size of its column; in a buffer whose head is aligned to
  8 bytes the address of the slot is then aligned to the attribute size where that is at
  most 8, and to 8 bytes for a 16-byte attribute.
\<close>

theorem C2_offsets_aligned:
  assumes "valid_layout layout" and "valid_col_ids layout ids"
  shows "\<exists>init. ProjectedRowInitializer hdr layout ids = Inr init \<and>
           length (init_offsets init) = length ids \<and>
           (\<forall>i<length ids.
              init_offsets init ! i mod AttrSize layout (init_col_ids init ! i) = 0 \<and>
              (\<forall>head. head mod 8 = 0 \<longrightarrow>
                 (head + init_offsets init ! i) mod min 8 (AttrSize layout (init_col_ids init ! i)) = 0))"
proof -
  have ne: "ids \<noteq> []" using assms(2) by (simp add: valid_col_ids_def)
  have nc: "0 < NumCols layout" using assms(2) by (rule valid_col_ids_NumCols)
  obtain init where init: "ProjectedRowInitializer hdr layout ids = Inr init"
    using ctor_Inr [OF ne nc] by blast
  have len: "length (init_offsets init) = length ids" using ne nc init by (rule ctor_length)
  have ids: "init_col_ids init = sort ids" using ne nc init by (rule ctor_length)
  have "init_offsets init ! i mod AttrSize layout (init_col_ids init ! i) = 0 \<and>
        (\<forall>head. head mod 8 = 0 \<longrightarrow>
           (head + init_offsets init ! i) mod min 8 (AttrSize layout (init_col_ids init ! i)) = 0)"
    if i: "i < length ids" for i
  proof -
    have al: "init_offsets init ! i mod AttrSize layout (init_col_ids init ! i) = 0"
      using assms init i by (rule offsets_aligned)
    have "init_col_ids init ! i \<in> set (sort ids)" unfolding ids using i by (intro nth_mem) simp
    then have a: "AttrSize layout (init_col_ids init ! i) \<in> {1, 2, 4, 8, 16}"
      using valid_attrs_sorted [OF assms] by blast
    show ?thesis using al address_aligned [OF a al] by blast
  qed
  then show ?thesis using init len by blast
qed

theorem C2_offsets_aligned_witness:
  "ProjectedRowInitializer 8 \<lparr>attr_sizes = [16, 8, 4, 2, 1], num_slots = 64\<rparr> [3, 0, 2] =
     Inr \<lparr>init_size = 72, init_col_ids = [0, 2, 3], init_offsets = [48, 64, 68]\<rparr> \<and>
   [48, 64, 68 :: nat] ! 0 mod AttrSize \<lparr>attr_sizes = [16, 8, 4, 2, 1], num_slots = 64\<rparr> 0 = 0 \<and>
   (24 + [48, 64, 68 :: nat] ! 0) mod
      min 8 (AttrSize \<lparr>attr_sizes = [16, 8, 4, 2, 1], num_slots = 64\<rparr> 0) = 0"
proof -
  let ?L = "\<lparr>attr_sizes = [16, 8, 4, 2, 1], num_slots = 64\<rparr>"
  let ?I = "\<lparr>init_size = 72, init_col_ids = [0, 2, 3], init_offsets = [48, 64, 68]\<rparr>"
  have v: "valid_layout ?L" by (simp add: valid_layout_def NumCols_def)
  have c: "valid_col_ids ?L [3, 0, 2]" by (simp add: valid_col_ids_def NumCols_def)
  have e: "ProjectedRowInitializer 8 ?L [3, 0, 2] = Inr ?I"
    by (simp add: ProjectedRowInitializer_def initial_size_eval [where n = 3] NumCols_def
      AttrSize_def SizeInBytes_def u32_def PadUpToSize_def init_loop_step init_loop_stop)
  from C2_offsets_aligned [OF v c, of 8] obtain init
    where i: "ProjectedRowInitializer 8 ?L [3, 0, 2] = Inr init"
      and al: "\<forall>i<length [3, 0, 2 :: nat].
              init_offsets init ! i mod AttrSize ?L (init_col_ids init ! i) = 0 \<and>
              (\<forall>head. head mod 8 = 0 \<longrightarrow>
                 (head + init_offsets init ! i) mod min 8 (AttrSize ?L (init_col_ids init ! i)) = 0)"
    by blast
  have init: "init = ?I" using i unfolding e by simp
  have zero: "(0 :: nat) < length [3, 0, 2 :: nat]" by simp
  have h24: "(24 :: nat) mod 8 = 0" by simp
  note A = al [rule_format, OF zero, unfolded init]
  note A1 = A [THEN conjunct1]
  note A2 = A [THEN conjunct2, rule_format, OF h24]
  have "[48, 64, 68 :: nat] ! 0 mod AttrSize ?L 0 = 0 \<and>
        (24 + [48, 64, 68 :: nat] ! 0) mod min 8 (AttrSize ?L 0) = 0"
    using A1 A2 by simp
  then show ?thesis using e by blast
qed

subsection \<open>The constructor computes the layout of the specification\<close>

text \<open>
  Claim C3: for every valid layout and list of column ids, the size and the offsets that
  the constructor computes with 32-bit arithmetic and an indexed loop are those of the
  algorithm of the specification: the header, two bytes per column id padded to 4, four
  bytes per offset padded to 8, the bitmap of \<open>ceil(n/8)\<close> bytes padded to the size of the
  first sorted column, then per column its offset, its size and the padding to the next
  column's size, or to 8 after the last. The header size is any number below \<open>2^31\<close>.
\<close>

theorem C3_constructor_refines_spec:
  assumes "valid_layout layout" and "valid_col_ids layout ids" and "hdr < 2 ^ 31"
  shows "ProjectedRowInitializer hdr layout ids = Inr (spec_initializer hdr layout ids)"
proof -
  let ?ids = "sort ids"
  have ne: "ids \<noteq> []" using assms(2) by (simp add: valid_col_ids_def)
  have attrs: "\<forall>c\<in>set ?ids. AttrSize layout c \<in> {1, 2, 4, 8, 16}"
    using assms(1,2) by (rule valid_attrs_sorted)
  have "?ids ! 0 \<in> set ?ids" using ne by (intro nth_mem) simp
  then have a0: "AttrSize layout (?ids ! 0) \<in> {1, 2, 4, 8, 16}" using attrs by blast
  have "length ids \<le> NumCols layout"
    using assms(2) by (intro distinct_length_le) (simp_all add: valid_col_ids_def)
  then have n: "length ?ids < 2 ^ 16" using assms(1) by (simp add: valid_layout_def)
  note S = initial_size_spec [OF a0 n assms(3)]
  have "init_loop layout ?ids 0 (replicate (length ids) 0, spec_start hdr layout ?ids) =
          (take 0 (replicate (length ids) 0) @ fst (spec_offsets layout (spec_start hdr layout ?ids) (drop 0 ?ids)),
           snd (spec_offsets layout (spec_start hdr layout ?ids) (drop 0 ?ids)))"
    by (rule init_loop_refines [OF attrs]) (use S(2) in simp_all)
  then show ?thesis
    by (simp add: ctor_Inr [OF ne valid_col_ids_NumCols [OF assms(2)]] S(1)
        spec_initializer_def Let_def split_beta)
qed

theorem C3_constructor_refines_spec_witness:
  "ProjectedRowInitializer 8 \<lparr>attr_sizes = [8, 4, 2, 1, 1], num_slots = 64\<rparr> [4, 2, 3] =
     Inr (spec_initializer 8 \<lparr>attr_sizes = [8, 4, 2, 1, 1], num_slots = 64\<rparr> [4, 2, 3]) \<and>
   spec_initializer 8 \<lparr>attr_sizes = [8, 4, 2, 1, 1], num_slots = 64\<rparr> [4, 2, 3] =
     \<lparr>init_size = 40, init_col_ids = [2, 3, 4], init_offsets = [34, 36, 37]\<rparr>"
proof -
  let ?L = "\<lparr>attr_sizes = [8, 4, 2, 1, 1], num_slots = 64\<rparr>"
  have v: "valid_layout ?L" by (simp add: valid_layout_def NumCols_def)
  have c: "valid_col_ids ?L [4, 2, 3]" by (simp add: valid_col_ids_def NumCols_def)
  have h: "(8 :: nat) < 2 ^ 31" by simp
  have s: "spec_initializer 8 ?L [4, 2, 3] =
     \<lparr>init_size = 40, init_col_ids = [2, 3, 4], init_offsets = [34, 36, 37]\<rparr>"
    by (simp add: spec_initializer_def spec_start_eval [where n = 3] AttrSize_def
        PadUpToSize_def)
  from C3_constructor_refines_spec [OF v c h] s show ?thesis by simp
qed

section \<open>Properties of projected rows\<close>

declare store_loop.simps [simp del]

lemma store_loop_apply:
  "store_loop src n i dst j = (if i \<le> j \<and> j < n then src ! j else dst j)"
proof (induction "n - i" arbitrary: i dst)
  case 0
  then have "\<not> i < n" by simp
  then show ?case by (subst store_loop.simps) auto
next
  case (Suc k)
  then have i: "i < n" and k: "k = n - (i + 1)" by arith+
  have "store_loop src n i dst j = store_loop src n (i + 1) (dst(i := src ! i)) j"
    using i by (subst store_loop.simps) simp
  also have "\<dots> = (if i + 1 \<le> j \<and> j < n then src ! j else (dst(i := src ! i)) j)"
    by (rule Suc.hyps(1) [OF k])
  also have "\<dots> = (if i \<le> j \<and> j < n then src ! j else dst j)"
    using i by auto
  finally show ?case .
qed

lemma Clear_Test: "pos < 8 * SizeInBytes n \<Longrightarrow> \<not> Test (Clear bits n) pos"
  by (simp add: Clear_def Test_def)

lemma lt_SizeInBytes: "i < n \<Longrightarrow> i < 8 * SizeInBytes n"
  unfolding SizeInBytes_def by arith

lemma InitializeRow_aligned:
  assumes "head mod 8 = 0"
  shows "InitializeRow init mem head =
     Inr (mem(head := (mem head)\<lparr>
            row_size := init_size init,
            row_num_cols := u16 (length (init_col_ids init)),
            ColumnIds := store_loop (init_col_ids init) (length (init_col_ids init)) 0
                           (ColumnIds (mem head)),
            AttrValueOffsets := store_loop (init_offsets init) (length (init_col_ids init)) 0
                           (AttrValueOffsets (mem head)),
            Bitmap := Clear (Bitmap (mem head)) (u16 (length (init_col_ids init)))\<rparr>), head)"
  using assms by (simp add: InitializeRow_def Let_def)

lemma u16_id: "n < 2 ^ 16 \<Longrightarrow> u16 n = n"
  by (simp add: u16_def)

text \<open>
  Claim C4: for an initializer built from a valid layout and a valid list of column ids, and
  a buffer whose head is aligned to 8 bytes, \<open>InitializeRow\<close> returns the head, and the
  row there has the size of the initializer, as many columns as were requested, the
  \<open>i\<close>-th id of the ascending list of ids as its \<open>i\<close>-th column id, the offsets of the
  initializer, and a bitmap whose bytes are all zero, so that \<open>AccessWithNullCheck\<close> returns
  \<open>nullptr\<close> for every column. The memory \<open>mem\<close> before the call is arbitrary.
\<close>

theorem C4_InitializeRow:
  assumes "valid_layout layout" and "valid_col_ids layout ids"
    and "ProjectedRowInitializer hdr layout ids = Inr init"
    and "head mod 8 = 0"
  shows "\<exists>mem'. InitializeRow init mem head = Inr (mem', head) \<and>
           row_size (mem' head) = ProjectedRowSize init \<and>
           NumColumns (mem' head) = length ids \<and>
           (\<forall>i<length ids.
              ColumnId (mem' head) i = sort ids ! i \<and>
              AttrValueOffsets (mem' head) i = init_offsets init ! i \<and>
              row_AccessWithNullCheck mem' head i = None) \<and>
           (\<forall>pos<8 * SizeInBytes (length ids). \<not> Test (Bitmap (mem' head)) pos)"
proof -
  have ne: "ids \<noteq> []" using assms(2) by (simp add: valid_col_ids_def)
  have nc: "0 < NumCols layout" using assms(2) by (rule valid_col_ids_NumCols)
  have ids: "init_col_ids init = sort ids" using ne nc assms(3) by (rule ctor_length)
  have "length ids \<le> NumCols layout"
    using assms(2) by (intro distinct_length_le) (simp_all add: valid_col_ids_def)
  then have n: "u16 (length ids) = length ids"
    using assms(1) by (intro u16_id) (simp add: valid_layout_def)
  let ?row = "(mem head)\<lparr>
            row_size := init_size init,
            row_num_cols := length ids,
            ColumnIds := store_loop (sort ids) (length ids) 0 (ColumnIds (mem head)),
            AttrValueOffsets := store_loop (init_offsets init) (length ids) 0
                           (AttrValueOffsets (mem head)),
            Bitmap := Clear (Bitmap (mem head)) (length ids)\<rparr>"
  have run: "InitializeRow init mem head = Inr (mem(head := ?row), head)"
    unfolding InitializeRow_aligned [OF assms(4)] ids by (simp add: n)
  have bits: "\<forall>pos<8 * SizeInBytes (length ids). \<not> Test (Bitmap ?row) pos"
    by (simp add: Clear_Test)
  have cols: "ColumnId ?row i = sort ids ! i \<and>
              AttrValueOffsets ?row i = init_offsets init ! i \<and>
              row_AccessWithNullCheck (mem(head := ?row)) head i = None"
    if "i < length ids" for i
    using that bits lt_SizeInBytes [OF that]
    by (simp add: ColumnId_def store_loop_apply row_AccessWithNullCheck_def)
  show ?thesis
    unfolding run using bits cols by (simp add: ProjectedRowSize_def NumColumns_def)
qed

theorem C4_InitializeRow_witness:
  "\<exists>mem'. InitializeRow \<lparr>init_size = 24, init_col_ids = [1], init_offsets = [20]\<rparr>
            (\<lambda>a. \<lparr>row_size = 0, row_num_cols = 0, ColumnIds = (\<lambda>i. 9),
                    AttrValueOffsets = (\<lambda>i. 9), Bitmap = (\<lambda>i. True)\<rparr>) 64 = Inr (mem', 64) \<and>
          row_size (mem' 64) = 24 \<and> NumColumns (mem' 64) = 1 \<and>
          ColumnId (mem' 64) 0 = 1 \<and> AttrValueOffsets (mem' 64) 0 = 20 \<and>
          row_AccessWithNullCheck mem' 64 0 = None"
proof -
  let ?L = "\<lparr>attr_sizes = [8, 4], num_slots = 64\<rparr>"
  let ?I = "\<lparr>init_size = 24, init_col_ids = [1], init_offsets = [20]\<rparr>"
  let ?M = "\<lambda>a :: nat. \<lparr>row_size = 0, row_num_cols = 0, ColumnIds = (\<lambda>i. 9),
                    AttrValueOffsets = (\<lambda>i. 9), Bitmap = (\<lambda>i. True)\<rparr>"
  have v: "valid_layout ?L" by (simp add: valid_layout_def NumCols_def)
  have c: "valid_col_ids ?L [1]" by (simp add: valid_col_ids_def NumCols_def)
  have e: "ProjectedRowInitializer 8 ?L [1] = Inr ?I"
    by (simp add: ProjectedRowInitializer_def initial_size_eval [where n = 1] NumCols_def
      AttrSize_def SizeInBytes_def u32_def PadUpToSize_def init_loop_step init_loop_stop)
  have h: "(64 :: nat) mod 8 = 0" by simp
  from C4_InitializeRow [OF v c e h, of ?M] obtain mem'
    where r: "InitializeRow ?I ?M 64 = Inr (mem', 64)"
      and s: "row_size (mem' 64) = ProjectedRowSize ?I"
      and n: "NumColumns (mem' 64) = length [1 :: nat]"
      and a: "\<forall>i<length [1 :: nat].
              ColumnId (mem' 64) i = sort [1 :: nat] ! i \<and>
              AttrValueOffsets (mem' 64) i = init_offsets ?I ! i \<and>
              row_AccessWithNullCheck mem' 64 i = None"
    by blast
  have zero: "(0 :: nat) < length [1 :: nat]" by simp
  note a0 = a [rule_format, OF zero]
  have "row_size (mem' 64) = 24 \<and> NumColumns (mem' 64) = 1 \<and>
          ColumnId (mem' 64) 0 = 1 \<and> AttrValueOffsets (mem' 64) 0 = 20 \<and>
          row_AccessWithNullCheck mem' 64 0 = None"
    using s n a0 by (simp add: ProjectedRowSize_def)
  with r show ?thesis by blast
qed

lemma CopyProjectedRowLayout_result:
  "CopyProjectedRowLayout mem head other =
     (mem(head := (memcpy_header (mem head) (mem other))
            \<lparr>Bitmap := Clear (Bitmap (mem head)) (row_num_cols (mem other))\<rparr>), head)"
  by (simp add: CopyProjectedRowLayout_def memcpy_header_def Let_def)

text \<open>
  Claim C8: \<open>CopyProjectedRowLayout\<close> returns the head; the row there has the size, the
  number of columns, the column ids and the offsets of the source, a bitmap whose bytes
  are all zero, so that \<open>AccessWithNullCheck\<close> returns \<open>nullptr\<close> for every column; and every
  row at another address, the source among them, is as it was. No alignment of the head is
  needed for this.
\<close>

theorem C8_CopyProjectedRowLayout:
  "snd (CopyProjectedRowLayout mem head other) = head \<and>
   row_size (fst (CopyProjectedRowLayout mem head other) head) = row_size (mem other) \<and>
   row_num_cols (fst (CopyProjectedRowLayout mem head other) head) = row_num_cols (mem other) \<and>
   (\<forall>i<row_num_cols (mem other).
      ColumnIds (fst (CopyProjectedRowLayout mem head other) head) i = ColumnIds (mem other) i \<and>
      AttrValueOffsets (fst (CopyProjectedRowLayout mem head other) head) i =
        AttrValueOffsets (mem other) i \<and>
      row_AccessWithNullCheck (fst (CopyProjectedRowLayout mem head other)) head i = None) \<and>
   (\<forall>pos<8 * SizeInBytes (row_num_cols (mem other)).
      \<not> Test (Bitmap (fst (CopyProjectedRowLayout mem head other) head)) pos) \<and>
   (\<forall>a. a \<noteq> head \<longrightarrow> fst (CopyProjectedRowLayout mem head other) a = mem a)"
proof -
  let ?n = "row_num_cols (mem other)"
  let ?row = "(memcpy_header (mem head) (mem other))\<lparr>Bitmap := Clear (Bitmap (mem head)) ?n\<rparr>"
  have bits: "\<forall>pos<8 * SizeInBytes ?n. \<not> Test (Bitmap ?row) pos"
    by (simp add: Clear_Test)
  have cols: "ColumnIds ?row i = ColumnIds (mem other) i \<and>
              AttrValueOffsets ?row i = AttrValueOffsets (mem other) i \<and>
              row_AccessWithNullCheck (mem(head := ?row)) head i = None"
    if "i < ?n" for i
    using that bits lt_SizeInBytes [OF that]
    by (simp add: memcpy_header_def row_AccessWithNullCheck_def)
  show ?thesis
    unfolding CopyProjectedRowLayout_result using bits cols
    by (simp add: memcpy_header_def)
qed

theorem C8_CopyProjectedRowLayout_witness:
  "row_size (fst (CopyProjectedRowLayout
      (\<lambda>a. if a = 64 then \<lparr>row_size = 24, row_num_cols = 1, ColumnIds = (\<lambda>i. 1),
                              AttrValueOffsets = (\<lambda>i. 20), Bitmap = (\<lambda>i. True)\<rparr>
            else \<lparr>row_size = 0, row_num_cols = 0, ColumnIds = (\<lambda>i. 9),
                   AttrValueOffsets = (\<lambda>i. 9), Bitmap = (\<lambda>i. True)\<rparr>) 128 64) 128) = 24 \<and>
   ColumnIds (fst (CopyProjectedRowLayout
      (\<lambda>a. if a = 64 then \<lparr>row_size = 24, row_num_cols = 1, ColumnIds = (\<lambda>i. 1),
                              AttrValueOffsets = (\<lambda>i. 20), Bitmap = (\<lambda>i. True)\<rparr>
            else \<lparr>row_size = 0, row_num_cols = 0, ColumnIds = (\<lambda>i. 9),
                   AttrValueOffsets = (\<lambda>i. 9), Bitmap = (\<lambda>i. True)\<rparr>) 128 64) 128) 0 = 1 \<and>
   row_AccessWithNullCheck (fst (CopyProjectedRowLayout
      (\<lambda>a. if a = 64 then \<lparr>row_size = 24, row_num_cols = 1, ColumnIds = (\<lambda>i. 1),
                              AttrValueOffsets = (\<lambda>i. 20), Bitmap = (\<lambda>i. True)\<rparr>
            else \<lparr>row_size = 0, row_num_cols = 0, ColumnIds = (\<lambda>i. 9),
                   AttrValueOffsets = (\<lambda>i. 9), Bitmap = (\<lambda>i. True)\<rparr>) 128 64)) 128 0 = None \<and>
   Bitmap (fst (CopyProjectedRowLayout
      (\<lambda>a. if a = 64 then \<lparr>row_size = 24, row_num_cols = 1, ColumnIds = (\<lambda>i. 1),
                              AttrValueOffsets = (\<lambda>i. 20), Bitmap = (\<lambda>i. True)\<rparr>
            else \<lparr>row_size = 0, row_num_cols = 0, ColumnIds = (\<lambda>i. 9),
                   AttrValueOffsets = (\<lambda>i. 9), Bitmap = (\<lambda>i. True)\<rparr>) 128 64) 64) 0"
proof -
  let ?S = "\<lparr>row_size = 24, row_num_cols = 1, ColumnIds = (\<lambda>i :: nat. 1 :: nat),
           AttrValueOffsets = (\<lambda>i :: nat. 20 :: nat), Bitmap = (\<lambda>i :: nat. True)\<rparr>"
  let ?M = "\<lambda>a :: nat. if a = 64 then ?S
            else \<lparr>row_size = 0, row_num_cols = 0, ColumnIds = (\<lambda>i. 9),
                   AttrValueOffsets = (\<lambda>i. 9), Bitmap = (\<lambda>i. True)\<rparr>"
  have src: "?M 64 = ?S" by simp
  have zero: "(0 :: nat) < row_num_cols ?S" by simp
  have ne: "(64 :: nat) \<noteq> 128" by simp
  note T = C8_CopyProjectedRowLayout [of ?M 128 64, unfolded src]
  note T1 = T [THEN conjunct2, THEN conjunct1]
  note T3 = T [THEN conjunct2, THEN conjunct2, THEN conjunct2, THEN conjunct1, rule_format, OF zero]
  note T5 = T [THEN conjunct2, THEN conjunct2, THEN conjunct2, THEN conjunct2, THEN conjunct2,
      rule_format, OF ne]
  show ?thesis using T1 T3 T5 by simp
qed

section \<open>Properties of the tuple access strategy\<close>

lemma GetOffset_less: "GetOffset slot < 2 ^ 20"
  by (cases slot) simp

lemma offset_product_no_wrap:
  assumes "valid_layout layout" and "col < NumCols layout"
  shows "u32 (AttrSize layout col * GetOffset slot) = AttrSize layout col * GetOffset slot"
proof -
  have "AttrSize layout col \<in> {1, 2, 4, 8, 16}" using assms by (rule valid_attr)
  then have a: "AttrSize layout col \<le> 16" by auto
  have "GetOffset slot \<le> 2 ^ 20" using GetOffset_less [of slot] by simp
  with a have "AttrSize layout col * GetOffset slot \<le> 16 * 2 ^ 20" by (rule mult_le_mono)
  then have "AttrSize layout col * GetOffset slot < 2 ^ 32" by simp
  then show ?thesis by (rule u32_id)
qed

lemma PadUpToSize_round_up:
  assumes "0 < w"
  shows "PadUpToSize w x = (x + w - 1) div w * w"
proof -
  have x: "w * (x div w) + x mod w = x" by (rule mult_div_mod_eq)
  have r: "x mod w < w" using assms by simp
  show ?thesis
  proof (cases "x mod w = 0")
    case True
    then have e: "x + w - 1 = (w - 1) + w * (x div w)" using x assms by simp
    have w: "w \<noteq> 0" using assms by simp
    have "((w - 1) + w * (x div w)) div w = x div w + (w - 1) div w"
      by (rule div_mult_self2 [OF w])
    moreover have "(w - 1) div w = 0" using assms by simp
    ultimately have "(x + w - 1) div w = x div w" unfolding e by simp
    then show ?thesis using True x by (simp add: PadUpToSize_def mult.commute)
  next
    case False
    have w: "w \<noteq> 0" using assms by simp
    have d: "w * (x div w + 1) = w * (x div w) + w" by simp
    have e: "x + w - 1 = (x mod w - 1) + w * (x div w + 1)"
      unfolding d using x False by arith
    have "((x mod w - 1) + w * (x div w + 1)) div w = (x div w + 1) + (x mod w - 1) div w"
      by (rule div_mult_self2 [OF w])
    moreover have "(x mod w - 1) div w = 0" using r by simp
    ultimately have q: "(x + w - 1) div w = x div w + 1" unfolding e by simp
    have "x + w - x mod w = w * (x div w) + w" using x r by arith
    then have "x + w - x mod w = (x div w + 1) * w" by (simp add: mult.commute)
    then show ?thesis using False q by (simp add: PadUpToSize_def)
  qed
qed

lemma TupleSlot_parts:
  assumes "block mod 2 ^ 20 = 0" and "offset < 2 ^ 20"
  shows "GetBlock (TupleSlot (block + offset)) = block"
    and "GetOffset (TupleSlot (block + offset)) = offset"
proof -
  have "(block + offset) mod 2 ^ 20 = offset mod 2 ^ 20"
    using assms(1) by (simp add: mod_add_left_eq [symmetric] del: mod_add_left_eq)
  then have m: "(block + offset) mod 2 ^ 20 = offset" using assms(2) by simp
  show "GetOffset (TupleSlot (block + offset)) = offset" using m by simp
  show "GetBlock (TupleSlot (block + offset)) = block" using m by simp
qed

text \<open>
  Claim C5: for every slot, given as a block aligned to 1 MiB and an offset below \<open>2^20\<close>,
  and every column of a valid layout, \<open>AccessWithNullCheck\<close> returns \<open>nullptr\<close> exactly when
  the bit of the slot in the presence bitmap of that column's mini block is 0, and
  otherwise the address of the attribute: the start of the column, which is the end of the
  bitmap of \<open>ceil(num_slots / 8)\<close> bytes of the mini block at \<open>attr_offsets[col]\<close> rounded up
  to a multiple of the attribute size, plus the attribute size times the offset of the
  slot. The statement names the fields of the block and of the layout, not the accessors
  of the code.
\<close>

theorem C5_AccessWithNullCheck:
  assumes "valid_layout layout" and "col < NumCols layout"
    and "block mod 2 ^ 20 = 0" and "offset < 2 ^ 20"
  shows "(AccessWithNullCheck layout mem (TupleSlot (block + offset)) col = None \<longleftrightarrow>
            \<not> PresenceBitmap (columns (mem block) col) offset) \<and>
         AccessWithNullCheck layout mem (TupleSlot (block + offset)) col =
           (let attr_size = attr_sizes layout ! col;
                bitmap_end = block + AttrOffets (mem block) ! col + (num_slots layout + 7) div 8;
                column_start = (bitmap_end + attr_size - 1) div attr_size * attr_size
            in if PresenceBitmap (columns (mem block) col) offset
               then Some (column_start + attr_size * offset)
               else None)"
proof -
  let ?slot = "TupleSlot (block + offset)"
  have a: "AttrSize layout col \<in> {1, 2, 4, 8, 16}" using assms(1,2) by (rule valid_attr)
  then have pos: "0 < attr_sizes layout ! col" by (auto simp: AttrSize_def)
  note parts = TupleSlot_parts [OF assms(3,4)]
  have prod: "u32 (attr_sizes layout ! col * offset) = attr_sizes layout ! col * offset"
    using offset_product_no_wrap [OF assms(1,2), of ?slot]
    by (simp only: parts AttrSize_def)
  have start: "ColumnStart layout mem block col =
      (block + AttrOffets (mem block) ! col + (num_slots layout + 7) div 8
         + attr_sizes layout ! col - 1) div (attr_sizes layout ! col) * (attr_sizes layout ! col)"
    by (simp add: ColumnStart_def MiniBlock_ColumnStart_def Column_def AlignedPtr_def
        SizeInBytes_def NumSlots_def AttrSize_def PadUpToSize_round_up [OF pos])
  have bit: "Test (ColumnNullBitmap mem block col) offset =
      PresenceBitmap (columns (mem block) col) offset"
    by (simp add: Test_def ColumnNullBitmap_def)
  have "AccessWithNullCheck layout mem ?slot col =
      (if PresenceBitmap (columns (mem block) col) offset
       then Some ((block + AttrOffets (mem block) ! col + (num_slots layout + 7) div 8
               + attr_sizes layout ! col - 1) div (attr_sizes layout ! col)
                 * (attr_sizes layout ! col) + attr_sizes layout ! col * offset)
       else None)"
    unfolding AccessWithNullCheck_def parts bit start
    by (simp add: AttrSize_def prod)
  then show ?thesis by (simp add: Let_def)
qed

theorem C5_AccessWithNullCheck_witness:
  "AccessWithNullCheck \<lparr>attr_sizes = [8, 4], num_slots = 100\<rparr>
     (\<lambda>b. \<lparr>num_records = 3, AttrOffets = [64, 128],
            columns = (\<lambda>c. \<lparr>PresenceBitmap = (\<lambda>i. i = 5 + c)\<rparr>)\<rparr>)
     (TupleSlot (3145728 + 5)) 0 = Some 3145848 \<and>
   AccessWithNullCheck \<lparr>attr_sizes = [8, 4], num_slots = 100\<rparr>
     (\<lambda>b. \<lparr>num_records = 3, AttrOffets = [64, 128],
            columns = (\<lambda>c. \<lparr>PresenceBitmap = (\<lambda>i. i = 5 + c)\<rparr>)\<rparr>)
     (TupleSlot (3145728 + 6)) 1 = Some 3145896 \<and>
   AccessWithNullCheck \<lparr>attr_sizes = [8, 4], num_slots = 100\<rparr>
     (\<lambda>b. \<lparr>num_records = 3, AttrOffets = [64, 128],
            columns = (\<lambda>c. \<lparr>PresenceBitmap = (\<lambda>i. i = 5 + c)\<rparr>)\<rparr>)
     (TupleSlot (3145728 + 5)) 1 = None"
proof -
  let ?L = "\<lparr>attr_sizes = [8, 4], num_slots = 100\<rparr>"
  let ?M = "\<lambda>b :: nat. \<lparr>num_records = 3, AttrOffets = [64, 128],
            columns = (\<lambda>c :: nat. \<lparr>PresenceBitmap = (\<lambda>i :: nat. i = 5 + c)\<rparr>)\<rparr>"
  have v: "valid_layout ?L" by (simp add: valid_layout_def NumCols_def)
  have c0: "0 < NumCols ?L" and c1: "1 < NumCols ?L" by (simp_all add: NumCols_def)
  have b: "(3145728 :: nat) mod 2 ^ 20 = 0" by simp
  have o5: "(5 :: nat) < 2 ^ 20" and o6: "(6 :: nat) < 2 ^ 20" by simp_all
  note A = C5_AccessWithNullCheck [OF v c0 b o5, of ?M, THEN conjunct2]
  note B = C5_AccessWithNullCheck [OF v c1 b o6, of ?M, THEN conjunct2]
  note C = C5_AccessWithNullCheck [OF v c1 b o5, of ?M, THEN conjunct2]
  show ?thesis using A B C by (simp add: Let_def)
qed

lemma ColumnNullBitmap_set:
  "ColumnNullBitmap (set_ColumnNullBitmap mem block col bits) block col = bits"
  by (simp add: ColumnNullBitmap_def set_ColumnNullBitmap_def)

lemma num_records_set:
  "num_records (set_ColumnNullBitmap mem block col bits b) = num_records (mem b)"
  by (simp add: set_ColumnNullBitmap_def)

lemma ColumnStart_set:
  "ColumnStart layout (set_ColumnNullBitmap mem block col bits) b c = ColumnStart layout mem b c"
  by (simp add: ColumnStart_def Column_def set_ColumnNullBitmap_def)

lemma SetNull_presence_bit: "\<not> presence_bit (SetNull mem slot col) slot col"
  by (simp add: SetNull_def presence_bit_def Flip_def Test_def ColumnNullBitmap_def
      set_ColumnNullBitmap_def Let_def)

lemma SetNull_num_records:
  "num_records (SetNull mem slot col b) =
     (if presence_bit mem slot col \<and> col = PRESENCE_COLUMN_ID \<and> b = GetBlock slot
      then num_records (mem b) - 1 else num_records (mem b))"
  by (simp add: SetNull_def presence_bit_def Flip_def Test_def num_records_set Let_def)

lemma AccessForceNotNull_presence_bit:
  "presence_bit (fst (AccessForceNotNull layout mem slot col)) slot col"
  by (simp add: AccessForceNotNull_def presence_bit_def Flip_def Test_def Let_def
      ColumnNullBitmap_set)

lemma AccessForceNotNull_pointer:
  "snd (AccessForceNotNull layout mem slot col) =
     ColumnStart layout mem (GetBlock slot) col + u32 (AttrSize layout col * GetOffset slot)"
  by (simp add: AccessForceNotNull_def Let_def ColumnStart_set)

lemma AccessForceNotNull_present:
  "presence_bit mem slot col \<Longrightarrow>
   AccessForceNotNull layout mem slot col =
     (mem, ColumnStart layout mem (GetBlock slot) col + u32 (AttrSize layout col * GetOffset slot))"
  by (simp add: AccessForceNotNull_def presence_bit_def Let_def)

lemma ColumnStart_AccessForceNotNull:
  "ColumnStart layout (fst (AccessForceNotNull layout mem slot col)) b c = ColumnStart layout mem b c"
  by (simp add: AccessForceNotNull_def Let_def ColumnStart_set)

text \<open>
  Claim C6: after \<open>AccessForceNotNull\<close> the presence bit is 1 and \<open>AccessWithNullCheck\<close>
  returns the pointer that \<open>AccessForceNotNull\<close> returned; after \<open>SetNull\<close>, from any
  memory, the presence bit is 0 and \<open>AccessWithNullCheck\<close> returns \<open>nullptr\<close>; and a second
  \<open>AccessForceNotNull\<close> leaves the memory of the first as it is and returns the same
  pointer.
\<close>

theorem C6_force_not_null_round_trip:
  "presence_bit (fst (AccessForceNotNull layout mem slot col)) slot col \<and>
   AccessWithNullCheck layout (fst (AccessForceNotNull layout mem slot col)) slot col =
     Some (snd (AccessForceNotNull layout mem slot col)) \<and>
   \<not> presence_bit (SetNull mem slot col) slot col \<and>
   AccessWithNullCheck layout (SetNull mem slot col) slot col = None \<and>
   AccessForceNotNull layout (fst (AccessForceNotNull layout mem slot col)) slot col =
     AccessForceNotNull layout mem slot col"
proof -
  let ?m = "fst (AccessForceNotNull layout mem slot col)"
  have p: "presence_bit ?m slot col" by (rule AccessForceNotNull_presence_bit)
  have a: "AccessWithNullCheck layout ?m slot col = Some (snd (AccessForceNotNull layout mem slot col))"
    using p by (simp add: AccessWithNullCheck_def presence_bit_def AccessForceNotNull_pointer
        ColumnStart_AccessForceNotNull)
  have n: "\<not> presence_bit (SetNull mem slot col) slot col" by (rule SetNull_presence_bit)
  then have w: "AccessWithNullCheck layout (SetNull mem slot col) slot col = None"
    by (simp add: AccessWithNullCheck_def presence_bit_def)
  have "AccessForceNotNull layout ?m slot col =
          (?m, snd (AccessForceNotNull layout mem slot col))"
    by (simp add: AccessForceNotNull_present [OF p] AccessForceNotNull_pointer
        ColumnStart_AccessForceNotNull)
  then have i: "AccessForceNotNull layout ?m slot col = AccessForceNotNull layout mem slot col"
    by simp
  show ?thesis using p a n w i by blast
qed

text \<open>
  Claim C7: \<open>SetNull\<close> clears the presence bit of the column; on the presence column of a
  live slot it decrements \<open>num_records\<close> of the block of the slot by one (as an unsigned
  32-bit number; by one as a natural number when the counter is not zero); on any other
  column it changes \<open>num_records\<close> of no block.
\<close>

theorem C7_SetNull_num_records:
  "\<not> presence_bit (SetNull mem slot col) slot col \<and>
   (col = PRESENCE_COLUMN_ID \<and> presence_bit mem slot col \<longrightarrow>
      num_records (SetNull mem slot col (GetBlock slot)) = num_records (mem (GetBlock slot)) - 1 \<and>
      (num_records (mem (GetBlock slot)) \<noteq> 0 \<longrightarrow>
         unat (num_records (SetNull mem slot col (GetBlock slot))) + 1 =
           unat (num_records (mem (GetBlock slot))))) \<and>
   (col \<noteq> PRESENCE_COLUMN_ID \<longrightarrow> (\<forall>b. num_records (SetNull mem slot col b) = num_records (mem b)))"
proof -
  have "unat (w - 1) + 1 = unat w" if "w \<noteq> 0" for w :: "32 word"
    using that by (simp add: unat_minus_one unat_gt_0 [symmetric] Suc_leI)
  then show ?thesis by (simp add: SetNull_presence_bit SetNull_num_records)
qed

theorem C7_SetNull_num_records_witness:
  "\<not> presence_bit
       (SetNull (\<lambda>b. \<lparr>num_records = 3, AttrOffets = [64, 128],
                       columns = (\<lambda>c. \<lparr>PresenceBitmap = (\<lambda>i. i = 5)\<rparr>)\<rparr>)
          (TupleSlot 3145733) 0) (TupleSlot 3145733) 0 \<and>
   num_records
     (SetNull (\<lambda>b. \<lparr>num_records = 3, AttrOffets = [64, 128],
                     columns = (\<lambda>c. \<lparr>PresenceBitmap = (\<lambda>i. i = 5)\<rparr>)\<rparr>)
        (TupleSlot 3145733) 0 3145728) = 2 \<and>
   num_records
     (SetNull (\<lambda>b. \<lparr>num_records = 3, AttrOffets = [64, 128],
                     columns = (\<lambda>c. \<lparr>PresenceBitmap = (\<lambda>i. i = 5)\<rparr>)\<rparr>)
        (TupleSlot 3145733) 1 3145728) = 3"
proof -
  let ?M = "\<lambda>b :: nat. \<lparr>num_records = 3, AttrOffets = [64, 128],
            columns = (\<lambda>c :: nat. \<lparr>PresenceBitmap = (\<lambda>i :: nat. i = 5)\<rparr>)\<rparr>"
  have p: "presence_bit ?M (TupleSlot 3145733) 0"
    by (simp add: presence_bit_def Test_def ColumnNullBitmap_def)
  have g: "GetBlock (TupleSlot 3145733) = 3145728" by simp
  have z: "(0 :: nat) = PRESENCE_COLUMN_ID" "(1 :: nat) \<noteq> PRESENCE_COLUMN_ID"
    by (simp_all add: PRESENCE_COLUMN_ID_def)
  from C7_SetNull_num_records [of ?M "TupleSlot 3145733" 0]
       C7_SetNull_num_records [of ?M "TupleSlot 3145733" 1]
  show ?thesis unfolding g using p z by simp
qed

text \<open>
  Claim C10: when the presence bit of the slot is already 0, \<open>SetNull\<close> on the presence
  column leaves \<open>num_records\<close> of every block unchanged; a second \<open>SetNull\<close> on the presence
  column never changes what the first left, so two calls on a live slot decrement the
  counter once.
\<close>

theorem C10_SetNull_not_live:
  "(\<not> presence_bit mem slot PRESENCE_COLUMN_ID \<longrightarrow>
      (\<forall>b. num_records (SetNull mem slot PRESENCE_COLUMN_ID b) = num_records (mem b))) \<and>
   (\<forall>b. num_records (SetNull (SetNull mem slot PRESENCE_COLUMN_ID) slot PRESENCE_COLUMN_ID b) =
          num_records (SetNull mem slot PRESENCE_COLUMN_ID b)) \<and>
   (presence_bit mem slot PRESENCE_COLUMN_ID \<longrightarrow>
      num_records (SetNull (SetNull mem slot PRESENCE_COLUMN_ID) slot PRESENCE_COLUMN_ID
                     (GetBlock slot)) = num_records (mem (GetBlock slot)) - 1)"
  by (simp add: SetNull_num_records SetNull_presence_bit)

theorem C10_SetNull_not_live_witness:
  "num_records
     (SetNull (\<lambda>b. \<lparr>num_records = 3, AttrOffets = [64, 128],
                     columns = (\<lambda>c. \<lparr>PresenceBitmap = (\<lambda>i. i = 5)\<rparr>)\<rparr>)
        (TupleSlot 3145734) PRESENCE_COLUMN_ID 3145728) = 3 \<and>
   num_records
     (SetNull
        (SetNull (\<lambda>b. \<lparr>num_records = 3, AttrOffets = [64, 128],
                        columns = (\<lambda>c. \<lparr>PresenceBitmap = (\<lambda>i. i = 5)\<rparr>)\<rparr>)
           (TupleSlot 3145733) PRESENCE_COLUMN_ID)
        (TupleSlot 3145733) PRESENCE_COLUMN_ID 3145728) = 2"
proof -
  let ?M = "\<lambda>b :: nat. \<lparr>num_records = 3, AttrOffets = [64, 128],
            columns = (\<lambda>c :: nat. \<lparr>PresenceBitmap = (\<lambda>i :: nat. i = 5)\<rparr>)\<rparr>"
  have p5: "presence_bit ?M (TupleSlot 3145733) PRESENCE_COLUMN_ID"
    by (simp add: presence_bit_def Test_def ColumnNullBitmap_def)
  have p6: "\<not> presence_bit ?M (TupleSlot 3145734) PRESENCE_COLUMN_ID"
    by (simp add: presence_bit_def Test_def ColumnNullBitmap_def)
  have g: "GetBlock (TupleSlot 3145733) = 3145728" by simp
  note A = C10_SetNull_not_live [of ?M "TupleSlot 3145734", THEN conjunct1, rule_format, OF p6]
  note B = C10_SetNull_not_live [of ?M "TupleSlot 3145733", THEN conjunct2, THEN conjunct2,
      rule_format, OF p5, unfolded g]
  show ?thesis using A [of 3145728] B by simp
qed

section \<open>Properties of the object pool\<close>

lemma Get_empty:
  "reuse_queue pool = [] \<Longrightarrow>
   Get pool = (pool\<lparr>alloc := fst (New (alloc pool))\<rparr>, snd (New (alloc pool)))"
  by (simp add: Get_def Dequeue_def split_beta)

lemma Get_recycled:
  "reuse_queue pool = x # q \<Longrightarrow> Get pool = (pool\<lparr>reuse_queue := q\<rparr>, x)"
  by (simp add: Get_def Dequeue_def Reuse_def)

lemma Release_recycles:
  "length (reuse_queue pool) \<le> reuse_limit pool \<Longrightarrow>
   Release pool obj = pool\<lparr>reuse_queue := reuse_queue pool @ [obj]\<rparr>"
  by (simp add: Release_def UnsafeSize_def Enqueue_def)

lemma Release_frees:
  "reuse_limit pool < length (reuse_queue pool) \<Longrightarrow>
   Release pool obj = pool\<lparr>alloc := Delete (alloc pool) obj\<rparr>"
  by (simp add: Release_def UnsafeSize_def)

lemma Get_limit: "reuse_limit (fst (Get pool)) = reuse_limit pool"
  by (cases "reuse_queue pool") (simp_all add: Get_empty Get_recycled)

lemma Release_limit: "reuse_limit (Release pool obj) = reuse_limit pool"
  by (simp add: Release_def)

lemma Get_queue_length: "length (reuse_queue (fst (Get pool))) \<le> length (reuse_queue pool)"
  by (cases "reuse_queue pool") (simp_all add: Get_empty Get_recycled)

lemma Release_queue_length:
  "length (reuse_queue pool) \<le> reuse_limit pool + 1 \<Longrightarrow>
   length (reuse_queue (Release pool obj)) \<le> reuse_limit pool + 1"
  by (simp add: Release_def UnsafeSize_def Enqueue_def)

lemma run_calls_bounded:
  "length (reuse_queue pool) \<le> reuse_limit pool + 1 \<Longrightarrow>
   reuse_limit (run_calls pool calls) = reuse_limit pool \<and>
   length (reuse_queue (run_calls pool calls)) \<le> reuse_limit pool + 1"
proof (induction pool calls rule: run_calls.induct)
  case (1 pool)
  then show ?case by simp
next
  case (2 pool cs)
  have "length (reuse_queue (fst (Get pool))) \<le> reuse_limit (fst (Get pool)) + 1"
    using "2.prems" Get_queue_length [of pool] by (simp add: Get_limit)
  from "2.IH" [OF this] show ?case by (simp add: Get_limit)
next
  case (3 pool obj cs)
  have "length (reuse_queue (Release pool obj)) \<le> reuse_limit (Release pool obj) + 1"
    using Release_queue_length [OF "3.prems"] by (simp add: Release_limit)
  from "3.IH" [OF this] show ?case by (simp add: Release_limit)
qed

lemma New_fresh: "fresh_above a \<Longrightarrow> snd (New a) \<notin> set (live a)"
  by (auto simp: fresh_above_def New_def list_all_iff)

lemma fresh_above_New: "fresh_above a \<Longrightarrow> fresh_above (fst (New a))"
  by (auto simp: fresh_above_def New_def list_all_iff)

lemma fresh_above_Delete: "fresh_above a \<Longrightarrow> fresh_above (Delete a obj)"
  by (auto simp: fresh_above_def Delete_def list_all_iff)

lemma fresh_above_Get: "fresh_above (alloc pool) \<Longrightarrow> fresh_above (alloc (fst (Get pool)))"
  by (cases "reuse_queue pool") (simp_all add: Get_empty Get_recycled fresh_above_New)

lemma fresh_above_Release:
  "fresh_above (alloc pool) \<Longrightarrow> fresh_above (alloc (Release pool obj))"
  by (simp add: Release_def fresh_above_Delete)

lemma fresh_above_run_calls:
  "fresh_above (alloc pool) \<Longrightarrow> fresh_above (alloc (run_calls pool calls))"
  by (induction pool calls rule: run_calls.induct)
    (simp_all add: fresh_above_Get fresh_above_Release)

text \<open>
  Claim C9: \<open>Get\<close> returns the object at the front of the reuse queue when there is one and
  a freshly allocated object otherwise; \<open>Release\<close> appends the object to the reuse queue
  when the size of the queue does not exceed the reuse limit and frees it otherwise; and
  after any sequence of calls on a new pool the queue holds at most one object more than
  the reuse limit, and the object a \<open>Get\<close> would allocate is not one that is still
  allocated.
\<close>

theorem C9_ObjectPool:
  "(\<forall>x q. reuse_queue pool = x # q \<longrightarrow> Get pool = (pool\<lparr>reuse_queue := q\<rparr>, x)) \<and>
   (reuse_queue pool = [] \<longrightarrow>
      Get pool = (pool\<lparr>alloc := fst (New (alloc pool))\<rparr>, snd (New (alloc pool)))) \<and>
   (length (reuse_queue pool) \<le> reuse_limit pool \<longrightarrow>
      Release pool obj = pool\<lparr>reuse_queue := reuse_queue pool @ [obj]\<rparr>) \<and>
   (reuse_limit pool < length (reuse_queue pool) \<longrightarrow>
      Release pool obj = pool\<lparr>alloc := Delete (alloc pool) obj\<rparr> \<and>
      obj \<notin> set (live (alloc (Release pool obj)))) \<and>
   length (reuse_queue (run_calls (ObjectPool limit) calls)) \<le> limit + 1 \<and>
   snd (New (alloc (run_calls (ObjectPool limit) calls)))
     \<notin> set (live (alloc (run_calls (ObjectPool limit) calls)))"
proof -
  have b: "length (reuse_queue (run_calls (ObjectPool limit) calls)) \<le> limit + 1"
    using run_calls_bounded [of "ObjectPool limit" calls] by (simp add: ObjectPool_def)
  have "fresh_above (alloc (ObjectPool limit))" by (simp add: ObjectPool_def fresh_above_def)
  then have "fresh_above (alloc (run_calls (ObjectPool limit) calls))"
    by (rule fresh_above_run_calls)
  then have f: "snd (New (alloc (run_calls (ObjectPool limit) calls)))
     \<notin> set (live (alloc (run_calls (ObjectPool limit) calls)))" by (rule New_fresh)
  have d: "obj \<notin> set (live (alloc (pool\<lparr>alloc := Delete (alloc pool) obj\<rparr>)))"
    by (simp add: Delete_def)
  show ?thesis
    using b f d by (simp add: Get_empty Get_recycled Release_recycles Release_frees)
qed

theorem C9_ObjectPool_witness:
  "Get (ObjectPool 1) = (\<lparr>alloc = \<lparr>next_fresh = 1, live = [0]\<rparr>, reuse_queue = [], reuse_limit = 1\<rparr>, 0) \<and>
   Get \<lparr>alloc = \<lparr>next_fresh = 3, live = [2, 1, 0]\<rparr>, reuse_queue = [1, 0], reuse_limit = 1\<rparr> =
     (\<lparr>alloc = \<lparr>next_fresh = 3, live = [2, 1, 0]\<rparr>, reuse_queue = [0], reuse_limit = 1\<rparr>, 1) \<and>
   Release \<lparr>alloc = \<lparr>next_fresh = 3, live = [2, 1, 0]\<rparr>, reuse_queue = [0], reuse_limit = 1\<rparr> 1 =
     \<lparr>alloc = \<lparr>next_fresh = 3, live = [2, 1, 0]\<rparr>, reuse_queue = [0, 1], reuse_limit = 1\<rparr> \<and>
   Release \<lparr>alloc = \<lparr>next_fresh = 3, live = [2, 1, 0]\<rparr>, reuse_queue = [0, 1], reuse_limit = 1\<rparr> 2 =
     \<lparr>alloc = \<lparr>next_fresh = 3, live = [1, 0]\<rparr>, reuse_queue = [0, 1], reuse_limit = 1\<rparr> \<and>
   length (reuse_queue (run_calls (ObjectPool 1)
      [CallGet, CallGet, CallGet, CallRelease 0, CallRelease 1, CallRelease 2])) \<le> 2"
proof -
  let ?P2 = "\<lparr>alloc = \<lparr>next_fresh = 3, live = [2, 1, 0]\<rparr>, reuse_queue = [1, 0], reuse_limit = 1\<rparr>"
  let ?P1 = "\<lparr>alloc = \<lparr>next_fresh = 3, live = [2, 1, 0]\<rparr>, reuse_queue = [0], reuse_limit = 1\<rparr>"
  let ?P3 = "\<lparr>alloc = \<lparr>next_fresh = 3, live = [2, 1, 0]\<rparr>, reuse_queue = [0, 1], reuse_limit = 1\<rparr>"
  have e: "reuse_queue (ObjectPool 1) = []" by (simp add: ObjectPool_def)
  have q: "reuse_queue ?P2 = 1 # [0]" by simp
  have l1: "length (reuse_queue ?P1) \<le> reuse_limit ?P1" by simp
  have l3: "reuse_limit ?P3 < length (reuse_queue ?P3)" by simp
  note G0 = C9_ObjectPool [of "ObjectPool 1" 0 0 "[]", THEN conjunct2, THEN conjunct1,
      rule_format, OF e]
  note G1 = C9_ObjectPool [of ?P2 0 0 "[]", THEN conjunct1, rule_format, OF q]
  note R1 = C9_ObjectPool [of ?P1 1 0 "[]", THEN conjunct2, THEN conjunct2, THEN conjunct1,
      rule_format, OF l1]
  note R3 = C9_ObjectPool [of ?P3 2 0 "[]", THEN conjunct2, THEN conjunct2, THEN conjunct2,
      THEN conjunct1, rule_format, OF l3, THEN conjunct1]
  note B = C9_ObjectPool [of ?P1 0 1
      "[CallGet, CallGet, CallGet, CallRelease 0, CallRelease 1, CallRelease 2]",
      THEN conjunct2, THEN conjunct2, THEN conjunct2, THEN conjunct2, THEN conjunct1]
  show ?thesis
    using G0 G1 R1 R3 B by (simp add: ObjectPool_def New_def Delete_def)
qed

end
